theory Spec2Isabelle
  imports Main
begin

section \<open>Server-side state of the whiteboard relay (src/index.js)\<close>

text \<open>
  The server keeps one global object \<open>rooms\<close>, keyed by room name; each entry is an object
  \<open>{ users: [...socket ids...], currentTurnIndex: n }\<close>.  Socket ids and room names are
  strings.  \<open>currentTurnIndex\<close> only ever holds \<open>0\<close>, a remainder \<open>(i + 1) % length\<close> or a
  non-negative result of \<open>indexOf\<close>, so it is a natural number.
\<close>

type_synonym socket_id = string
type_synonym room_name = string

record room_state =
  users :: "socket_id list"
  currentTurnIndex :: nat

type_synonym registry = "room_name \<rightharpoonup> room_state"

text \<open>
  \<open>rooms\<close> is created by the literal \<open>{}\<close>, so a property read \<open>rooms[name]\<close> that finds no
  own property continues in \<open>Object.prototype\<close>.  For the names below the read yields a
  function (or, for \<open>__proto__\<close>, the prototype object): a truthy value that has no
  \<open>users\<close> property.  Reading \<open>.length\<close> or \<open>.push\<close> of that missing property throws a
  TypeError.
\<close>

datatype js_error = TypeError

definition object_prototype_keys :: "string list" where
  "object_prototype_keys =
     [''constructor'', ''hasOwnProperty'', ''isPrototypeOf'', ''propertyIsEnumerable'',
      ''toLocaleString'', ''toString'', ''valueOf'', ''__proto__'',
      ''__defineGetter__'', ''__defineSetter__'', ''__lookupGetter__'', ''__lookupSetter__'']"

datatype lookup = Missing | Inherited | Own room_state

definition rooms_get :: "registry \<Rightarrow> room_name \<Rightarrow> lookup" where
  "rooms_get rs roomName =
     (case rs roomName of
        Some rm \<Rightarrow> Own rm
      | None \<Rightarrow> if roomName \<in> set object_prototype_keys then Inherited else Missing)"

text \<open>
  What \<open>getActiveUser\<close> can return: \<open>null\<close> (its explicit early return), a socket id, or
  \<open>undefined\<close> when \<open>currentTurnIndex\<close> is past the end of \<open>users\<close>.
\<close>

datatype js_value = Null | Undefined | SocketId socket_id

definition element :: "socket_id list \<Rightarrow> nat \<Rightarrow> js_value" where
  "element xs i = (if i < length xs then SocketId (xs ! i) else Undefined)"

definition getActiveUser :: "registry \<Rightarrow> room_name \<Rightarrow> js_error + js_value" where
  "getActiveUser rs roomName =
     (case rooms_get rs roomName of
        Missing \<Rightarrow> Inr Null
      | Inherited \<Rightarrow> Inl TypeError
      | Own rm \<Rightarrow>
          if length (users rm) = 0 then Inr Null
          else Inr (element (users rm) (currentTurnIndex rm)))"

text \<open>\<open>Array.prototype.indexOf\<close> with strict equality: the first position, or \<open>-1\<close>.\<close>

fun index_from :: "socket_id list \<Rightarrow> socket_id \<Rightarrow> int \<Rightarrow> int" where
  "index_from [] a i = - 1"
| "index_from (x # xs) a i = (if x = a then i else index_from xs a (i + 1))"

definition indexOf :: "socket_id list \<Rightarrow> js_value \<Rightarrow> int" where
  "indexOf xs v = (case v of SocketId a \<Rightarrow> index_from xs a 0 | _ \<Rightarrow> - 1)"

section \<open>Outbound messages\<close>

text \<open>
  The payload object of the client events: its \<open>room\<close> property and the remaining
  properties, which the server never inspects.  A client may also send an event with no
  payload, or with \<open>null\<close>: the handlers then receive \<open>undefined\<close> or \<open>null\<close> as \<open>data\<close>.
  Such an argument is \<open>None\<close> below (the two behave alike: reading \<open>data.room\<close> throws
  a TypeError), a payload object \<open>d\<close> is \<open>Some d\<close>.
\<close>

record data =
  room :: room_name
  props :: "(string \<times> string) list"

datatype message =
    turn_update js_value
  | server_start_drawing data
  | server_drawing data
  | server_finish_drawing
  | server_clear_canvas

text \<open>
  \<open>io.in(r).emit(...)\<close> addresses every socket subscribed to the group \<open>r\<close>;
  \<open>socket.to(r).emit(...)\<close> addresses the same group without the emitting socket.
\<close>

datatype target = InRoom room_name | ToOthers room_name socket_id

type_synonym emit = "target \<times> message"

text \<open>
  The effect of running a piece of handler code: the state it leaves, the messages it has
  emitted, and the exception that ended it, if any.
\<close>

datatype 'a outcome =
  Outcome (state_of: 'a) (emitted: "emit list") (thrown: "js_error option")

definition broadcastTurnUpdate :: "registry \<Rightarrow> room_name \<Rightarrow> registry outcome" where
  "broadcastTurnUpdate rs roomName =
     (case getActiveUser rs roomName of
        Inl e \<Rightarrow> Outcome rs [] (Some e)
      | Inr activeSocketId \<Rightarrow> Outcome rs [(InRoom roomName, turn_update activeSocketId)] None)"

definition passTurn :: "registry \<Rightarrow> room_name \<Rightarrow> registry outcome" where
  "passTurn rs roomName =
     (case rooms_get rs roomName of
        Missing \<Rightarrow> Outcome rs [] None
      | Inherited \<Rightarrow> Outcome rs [] (Some TypeError)
      | Own rm \<Rightarrow>
          if length (users rm) = 0 then Outcome rs [] None
          else broadcastTurnUpdate
                 (rs(roomName \<mapsto>
                    rm\<lparr>currentTurnIndex := (currentTurnIndex rm + 1) mod length (users rm)\<rparr>))
                 roomName)"

section \<open>The connection handlers\<close>

text \<open>
  Besides \<open>rooms\<close>, the handlers touch two pieces of per-socket state: the property
  \<open>socket.roomName\<close> (unset until the first \<open>join-room\<close>) and the socket's subscriptions to
  socket.io broadcast groups, changed by \<open>socket.join\<close>.  socket.io removes a closing socket
  from all its groups before it runs the \<open>disconnect\<close> handler.
\<close>

record server_state =
  rooms :: registry
  roomName :: "socket_id \<rightharpoonup> room_name"
  subscribers :: "room_name \<Rightarrow> socket_id set"

definition initial :: server_state where
  "initial = \<lparr>rooms = Map.empty, roomName = Map.empty, subscribers = (\<lambda>r. {})\<rparr>"

definition with_rooms :: "server_state \<Rightarrow> registry outcome \<Rightarrow> server_state outcome" where
  "with_rooms s oc = Outcome (s\<lparr>rooms := state_of oc\<rparr>) (emitted oc) (thrown oc)"

definition join_room :: "server_state \<Rightarrow> socket_id \<Rightarrow> room_name \<Rightarrow> server_state outcome" where
  "join_room s sid r =
     (let s1 = s\<lparr>subscribers := (subscribers s)(r := insert sid (subscribers s r)),
                 roomName := (roomName s)(sid \<mapsto> r)\<rparr>;
          rs1 = (case rooms_get (rooms s) r of
                   Missing \<Rightarrow> (rooms s)(r \<mapsto> \<lparr>users = [], currentTurnIndex = 0\<rparr>)
                 | _ \<Rightarrow> rooms s)
      in case rooms_get rs1 r of
           Own rm \<Rightarrow>
             with_rooms s1 (broadcastTurnUpdate (rs1(r \<mapsto> rm\<lparr>users := users rm @ [sid]\<rparr>)) r)
         | _ \<Rightarrow> Outcome (s1\<lparr>rooms := rs1\<rparr>) [] (Some TypeError))"

definition pass_turn :: "server_state \<Rightarrow> socket_id \<Rightarrow> data option \<Rightarrow> server_state outcome" where
  "pass_turn s sid payload =
     (case payload of
        None \<Rightarrow> Outcome s [] (Some TypeError)
      | Some d \<Rightarrow> with_rooms s (passTurn (rooms s) (room d)))"

definition handleDrawEvent ::
  "server_state \<Rightarrow> socket_id \<Rightarrow> (data \<Rightarrow> emit list) \<Rightarrow> data option \<Rightarrow>
     server_state outcome" where
  "handleDrawEvent s sid handler payload =
     (case payload of
        None \<Rightarrow> Outcome s [] (Some TypeError)
      | Some d \<Rightarrow>
          (case getActiveUser (rooms s) (room d) of
             Inl e \<Rightarrow> Outcome s [] (Some e)
           | Inr activeSocketId \<Rightarrow>
               if SocketId sid = activeSocketId then Outcome s (handler d) None
               else Outcome s [] None))"

definition start_drawing ::
  "server_state \<Rightarrow> socket_id \<Rightarrow> data option \<Rightarrow> server_state outcome" where
  "start_drawing s sid =
     handleDrawEvent s sid (\<lambda>d. [(ToOthers (room d) sid, server_start_drawing d)])"

definition drawing ::
  "server_state \<Rightarrow> socket_id \<Rightarrow> data option \<Rightarrow> server_state outcome" where
  "drawing s sid = handleDrawEvent s sid (\<lambda>d. [(ToOthers (room d) sid, server_drawing d)])"

definition finish_drawing ::
  "server_state \<Rightarrow> socket_id \<Rightarrow> data option \<Rightarrow> server_state outcome" where
  "finish_drawing s sid =
     handleDrawEvent s sid (\<lambda>d. [(ToOthers (room d) sid, server_finish_drawing)])"

definition clear_canvas ::
  "server_state \<Rightarrow> socket_id \<Rightarrow> data option \<Rightarrow> server_state outcome" where
  "clear_canvas s sid = handleDrawEvent s sid (\<lambda>d. [(InRoom (room d), server_clear_canvas)])"

text \<open>
  The \<open>disconnect\<close> handler.  An unset \<open>socket.roomName\<close> is \<open>undefined\<close>, which as a
  property key reads the property named \<open>"undefined"\<close>.  In the branch for a socket that
  did not hold the turn, \<open>getActiveUser\<close> is called after \<open>users\<close> has been replaced by the
  filtered array, so it reads the filtered array at the old index.
\<close>

definition disconnect :: "server_state \<Rightarrow> socket_id \<Rightarrow> server_state outcome" where
  "disconnect s sid =
     (let s0 = s\<lparr>subscribers := (\<lambda>r. subscribers s r - {sid})\<rparr>;
          key = (case roomName s sid of None \<Rightarrow> ''undefined'' | Some r \<Rightarrow> r)
      in case rooms_get (rooms s) key of
           Missing \<Rightarrow> Outcome s0 [] None
         | Inherited \<Rightarrow> Outcome s0 [] (Some TypeError)
         | Own rm \<Rightarrow>
             (let wasTheirTurn = (getActiveUser (rooms s) key = Inr (SocketId sid));
                  rm1 = rm\<lparr>users := filter (\<lambda>id. id \<noteq> sid) (users rm)\<rparr>;
                  rs1 = (rooms s)(key \<mapsto> rm1)
              in if length (users rm1) = 0 then Outcome (s0\<lparr>rooms := rs1(key := None)\<rparr>) [] None
                 else if wasTheirTurn then
                   with_rooms s0 (broadcastTurnUpdate (rs1(key \<mapsto> rm1\<lparr>currentTurnIndex := 0\<rparr>)) key)
                 else
                   (case getActiveUser rs1 key of
                      Inl e \<Rightarrow> Outcome (s0\<lparr>rooms := rs1\<rparr>) [] (Some e)
                    | Inr activeUser \<Rightarrow>
                        (let newIndex = indexOf (users rm1) activeUser;
                             rm2 = (if newIndex \<noteq> - 1
                                    then rm1\<lparr>currentTurnIndex := nat newIndex\<rparr>
                                    else rm1\<lparr>currentTurnIndex := 0\<rparr>)
                         in with_rooms s0 (broadcastTurnUpdate (rs1(key \<mapsto> rm2)) key)))))"

section \<open>Events and runs\<close>

datatype event =
    JoinRoom room_name
  | PassTurn "data option"
  | StartDrawing "data option"
  | Drawing "data option"
  | FinishDrawing "data option"
  | ClearCanvas "data option"
  | Disconnect

fun step :: "server_state \<Rightarrow> socket_id \<Rightarrow> event \<Rightarrow> server_state outcome" where
  "step s sid (JoinRoom r) = join_room s sid r"
| "step s sid (PassTurn payload) = pass_turn s sid payload"
| "step s sid (StartDrawing payload) = start_drawing s sid payload"
| "step s sid (Drawing payload) = drawing s sid payload"
| "step s sid (FinishDrawing payload) = finish_drawing s sid payload"
| "step s sid (ClearCanvas payload) = clear_canvas s sid payload"
| "step s sid Disconnect = disconnect s sid"

text \<open>
  A run handles the events one at a time, each tagged with the socket it arrived on, and
  ends at the first uncaught exception.
\<close>

fun run :: "server_state \<Rightarrow> (socket_id \<times> event) list \<Rightarrow> server_state outcome" where
  "run s [] = Outcome s [] None"
| "run s ((sid, ev) # evs) =
     (case step s sid ev of
        Outcome s' out (Some e) \<Rightarrow> Outcome s' out (Some e)
      | Outcome s' out None \<Rightarrow>
          (case run s' evs of Outcome s'' out' t \<Rightarrow> Outcome s'' (out @ out') t))"

text \<open>The sockets a message is delivered to, given the current subscriptions.\<close>

fun recipients :: "server_state \<Rightarrow> target \<Rightarrow> socket_id set" where
  "recipients s (InRoom r) = subscribers s r"
| "recipients s (ToOthers r sid) = subscribers s r - {sid}"

section \<open>Notions used to state the properties\<close>

text \<open>
  The registry invariant: every entry has at least one user, its turn index points into
  \<open>users\<close>, and its name is not one of the inherited property names.
\<close>

definition registry_ok :: "registry \<Rightarrow> bool" where
  "registry_ok rs \<longleftrightarrow>
     (\<forall>r rm. rs r = Some rm \<longrightarrow>
        users rm \<noteq> [] \<and> currentTurnIndex rm < length (users rm) \<and>
        r \<notin> set object_prototype_keys)"

text \<open>The registry after \<open>k\<close> consecutive calls of \<open>passTurn\<close> for one room.\<close>

fun passTurn_times :: "nat \<Rightarrow> registry \<Rightarrow> room_name \<Rightarrow> registry" where
  "passTurn_times 0 rs r = rs"
| "passTurn_times (Suc k) rs r = passTurn_times k (state_of (passTurn rs r)) r"

text \<open>
  The registry operation \<open>join\<close> as the specification words it (section 4.1): the room is
  created if absent, with index \<open>0\<close> and no members, and the connection is appended to the
  members if it is not already present.  It is compared with \<open>join_room\<close> below.
\<close>

definition join_as_specified :: "registry \<Rightarrow> room_name \<Rightarrow> socket_id \<Rightarrow> registry" where
  "join_as_specified rs r c =
     (let rm = (case rs r of None \<Rightarrow> \<lparr>users = [], currentTurnIndex = 0\<rparr> | Some rm \<Rightarrow> rm)
      in rs(r \<mapsto> (if c \<in> set (users rm) then rm else rm\<lparr>users := users rm @ [c]\<rparr>)))"

section \<open>Sample runs\<close>

text \<open>Concrete event sequences and a drawing payload, used to evaluate the handlers.\<close>

definition two_joined :: "(socket_id \<times> event) list" where
  "two_joined = [(''A'', JoinRoom ''r1''), (''B'', JoinRoom ''r1'')]"

definition three_joined :: "(socket_id \<times> event) list" where
  "three_joined = [(''A'', JoinRoom ''r1''), (''B'', JoinRoom ''r1''), (''C'', JoinRoom ''r1'')]"

definition sample_data :: data where
  "sample_data = \<lparr>room = ''r1'', props = [(''x'', ''1''), (''y'', ''2'')]\<rparr>"

section \<open>Basic facts about the registry operations\<close>

lemma rooms_get_own: "rs r = Some rm \<Longrightarrow> rooms_get rs r = Own rm"
  by (simp add: rooms_get_def)

lemma rooms_get_none:
  "rs r = None \<Longrightarrow>
   rooms_get rs r = (if r \<in> set object_prototype_keys then Inherited else Missing)"
  by (simp add: rooms_get_def)

lemma rooms_get_Own_iff: "rooms_get rs r = Own rm \<longleftrightarrow> rs r = Some rm"
  by (auto simp: rooms_get_def split: option.splits)

lemma getActiveUser_own:
  "rs r = Some rm \<Longrightarrow>
   getActiveUser rs r =
     Inr (if users rm = [] then Null else element (users rm) (currentTurnIndex rm))"
  by (simp add: getActiveUser_def rooms_get_own)

lemma getActiveUser_missing:
  "rs r = None \<Longrightarrow> r \<notin> set object_prototype_keys \<Longrightarrow> getActiveUser rs r = Inr Null"
  by (simp add: getActiveUser_def rooms_get_none)

lemma getActiveUser_inherited:
  "rs r = None \<Longrightarrow> r \<in> set object_prototype_keys \<Longrightarrow> getActiveUser rs r = Inl TypeError"
  by (simp add: getActiveUser_def rooms_get_none)

lemma broadcastTurnUpdate_state: "state_of (broadcastTurnUpdate rs r) = rs"
  by (simp add: broadcastTurnUpdate_def split: sum.splits)

lemma broadcastTurnUpdate_own:
  "rs r = Some rm \<Longrightarrow>
   broadcastTurnUpdate rs r =
     Outcome rs
       [(InRoom r,
         turn_update (if users rm = [] then Null else element (users rm) (currentTurnIndex rm)))]
       None"
  by (simp add: broadcastTurnUpdate_def getActiveUser_own)

lemma passTurn_own:
  assumes "rs r = Some rm" and "users rm \<noteq> []"
  shows "passTurn rs r =
           Outcome
             (rs(r \<mapsto> rm\<lparr>currentTurnIndex := (currentTurnIndex rm + 1) mod length (users rm)\<rparr>))
             [(InRoom r,
               turn_update
                 (SocketId (users rm ! ((currentTurnIndex rm + 1) mod length (users rm)))))]
             None"
  using assms
  by (simp add: passTurn_def rooms_get_own broadcastTurnUpdate_own element_def)

lemma passTurn_state_unchanged:
  assumes "rs r = None \<or> (\<exists>rm. rs r = Some rm \<and> users rm = [])"
  shows "state_of (passTurn rs r) = rs" and "emitted (passTurn rs r) = []"
  using assms
  by (auto simp: passTurn_def rooms_get_def split: option.splits)

section \<open>join-room\<close>

lemma join_room_fresh:
  assumes "rooms s r = None" and "r \<notin> set object_prototype_keys"
  shows "join_room s sid r =
           Outcome
             (s\<lparr>subscribers := (subscribers s)(r := insert sid (subscribers s r)),
                roomName := (roomName s)(sid \<mapsto> r),
                rooms := (rooms s)(r \<mapsto> \<lparr>users = [sid], currentTurnIndex = 0\<rparr>)\<rparr>)
             [(InRoom r, turn_update (SocketId sid))] None"
  using assms
  by (simp add: join_room_def rooms_get_none rooms_get_own with_rooms_def
      broadcastTurnUpdate_own element_def)

lemma join_room_existing:
  assumes "rooms s r = Some rm"
  shows "join_room s sid r =
           Outcome
             (s\<lparr>subscribers := (subscribers s)(r := insert sid (subscribers s r)),
                roomName := (roomName s)(sid \<mapsto> r),
                rooms := (rooms s)(r \<mapsto> rm\<lparr>users := users rm @ [sid]\<rparr>)\<rparr>)
             [(InRoom r, turn_update (element (users rm @ [sid]) (currentTurnIndex rm)))] None"
  using assms
  by (simp add: join_room_def rooms_get_own with_rooms_def broadcastTurnUpdate_own)

lemma join_room_inherited:
  assumes "rooms s r = None" and "r \<in> set object_prototype_keys"
  shows "join_room s sid r =
           Outcome
             (s\<lparr>subscribers := (subscribers s)(r := insert sid (subscribers s r)),
                roomName := (roomName s)(sid \<mapsto> r)\<rparr>)
             [] (Some TypeError)"
  using assms
  by (simp add: join_room_def rooms_get_none)

section \<open>disconnect\<close>

lemma index_from_range:
  "index_from xs a i = - 1 \<or> (i \<le> index_from xs a i \<and> index_from xs a i < i + int (length xs))"
  by (induction xs arbitrary: i) (auto, force+)

lemma indexOf_range: "indexOf xs v = - 1 \<or> (0 \<le> indexOf xs v \<and> indexOf xs v < int (length xs))"
  using index_from_range [of xs _ 0] by (auto simp: indexOf_def split: js_value.splits)

lemma disconnect_no_room:
  assumes "(case roomName s sid of None \<Rightarrow> ''undefined'' | Some x \<Rightarrow> x) = r"
    and "rooms s r = None"
  shows "disconnect s sid =
           Outcome (s\<lparr>subscribers := (\<lambda>x. subscribers s x - {sid})\<rparr>) []
             (if r \<in> set object_prototype_keys then Some TypeError else None)"
  using assms by (simp add: disconnect_def rooms_get_none)

lemma disconnect_last:
  assumes "(case roomName s sid of None \<Rightarrow> ''undefined'' | Some x \<Rightarrow> x) = r"
    and "rooms s r = Some rm"
    and "filter (\<lambda>id. id \<noteq> sid) (users rm) = []"
  shows "disconnect s sid =
           Outcome (s\<lparr>subscribers := (\<lambda>x. subscribers s x - {sid}),
                     rooms := (rooms s)(r := None)\<rparr>) [] None"
  using assms by (simp add: disconnect_def rooms_get_own)

lemma disconnect_active:
  assumes "(case roomName s sid of None \<Rightarrow> ''undefined'' | Some x \<Rightarrow> x) = r"
    and "rooms s r = Some rm"
    and "filter (\<lambda>id. id \<noteq> sid) (users rm) \<noteq> []"
    and "element (users rm) (currentTurnIndex rm) = SocketId sid"
  shows "disconnect s sid =
           Outcome
             (s\<lparr>subscribers := (\<lambda>x. subscribers s x - {sid}),
                rooms := (rooms s)(r \<mapsto>
                  rm\<lparr>users := filter (\<lambda>id. id \<noteq> sid) (users rm), currentTurnIndex := 0\<rparr>)\<rparr>)
             [(InRoom r, turn_update (SocketId (filter (\<lambda>id. id \<noteq> sid) (users rm) ! 0)))]
             None"
proof -
  from assms(3) have ne: "users rm \<noteq> []" by auto
  show ?thesis
    using assms ne
    by (simp add: disconnect_def rooms_get_own getActiveUser_own with_rooms_def
        broadcastTurnUpdate_own element_def)
qed

lemma disconnect_other:
  assumes "(case roomName s sid of None \<Rightarrow> ''undefined'' | Some x \<Rightarrow> x) = r"
    and "rooms s r = Some rm"
    and "filter (\<lambda>id. id \<noteq> sid) (users rm) \<noteq> []"
    and "element (users rm) (currentTurnIndex rm) \<noteq> SocketId sid"
  shows "disconnect s sid =
           (let us = filter (\<lambda>id. id \<noteq> sid) (users rm);
                newIndex = indexOf us (element us (currentTurnIndex rm));
                i = (if newIndex \<noteq> - 1 then nat newIndex else 0)
            in Outcome
                 (s\<lparr>subscribers := (\<lambda>x. subscribers s x - {sid}),
                    rooms := (rooms s)(r \<mapsto> rm\<lparr>users := us, currentTurnIndex := i\<rparr>)\<rparr>)
                 [(InRoom r, turn_update (element us i))] None)"
proof -
  from assms(3) have ne: "users rm \<noteq> []" by auto
  show ?thesis
    using assms ne
    by (simp add: disconnect_def rooms_get_own getActiveUser_own with_rooms_def
        broadcastTurnUpdate_own Let_def)
qed

section \<open>The registry invariant is kept by every handler\<close>

lemma registry_ok_initial: "registry_ok (rooms initial)"
  by (simp add: registry_ok_def initial_def)

lemma registry_ok_upd:
  assumes "registry_ok rs" and "users rm \<noteq> []" and "currentTurnIndex rm < length (users rm)"
    and "r \<notin> set object_prototype_keys"
  shows "registry_ok (rs(r \<mapsto> rm))"
  using assms by (auto simp: registry_ok_def)

lemma registry_ok_del: "registry_ok rs \<Longrightarrow> registry_ok (rs(r := None))"
  by (auto simp: registry_ok_def)

lemma registry_ok_passTurn:
  assumes "registry_ok rs"
  shows "registry_ok (state_of (passTurn rs r))"
proof (cases "rs r")
  case None
  then show ?thesis using assms by (simp add: passTurn_state_unchanged)
next
  case (Some rm)
  with assms have ok: "users rm \<noteq> []" "r \<notin> set object_prototype_keys"
    by (auto simp: registry_ok_def)
  show ?thesis
    using assms ok Some by (simp add: passTurn_own [of rs r rm] registry_ok_upd)
qed

lemma registry_ok_join_room:
  assumes "registry_ok (rooms s)"
  shows "registry_ok (rooms (state_of (join_room s sid r)))"
proof (cases "rooms s r")
  case None
  show ?thesis
  proof (cases "r \<in> set object_prototype_keys")
    case True
    then show ?thesis using assms None by (simp add: join_room_inherited)
  next
    case False
    then show ?thesis using assms None by (simp add: join_room_fresh registry_ok_upd)
  qed
next
  case (Some rm)
  with assms have "users rm \<noteq> []" "currentTurnIndex rm < length (users rm)"
    "r \<notin> set object_prototype_keys"
    by (auto simp: registry_ok_def)
  then show ?thesis
    using assms Some by (simp add: join_room_existing [of s r rm] registry_ok_upd)
qed

lemma handleDrawEvent_state: "state_of (handleDrawEvent s sid h payload) = s"
  by (simp add: handleDrawEvent_def split: option.splits sum.splits)

lemma registry_ok_disconnect:
  assumes "registry_ok (rooms s)"
  shows "registry_ok (rooms (state_of (disconnect s sid)))"
proof -
  define r where "r = (case roomName s sid of None \<Rightarrow> ''undefined'' | Some x \<Rightarrow> x)"
  then have key: "(case roomName s sid of None \<Rightarrow> ''undefined'' | Some x \<Rightarrow> x) = r"
    by simp
  show ?thesis
  proof (cases "rooms s r")
    case None
    then show ?thesis using assms by (simp add: disconnect_no_room [OF key])
  next
    case (Some rm)
    define us where "us = filter (\<lambda>id. id \<noteq> sid) (users rm)"
    from assms Some have r: "r \<notin> set object_prototype_keys"
      by (auto simp: registry_ok_def)
    show ?thesis
    proof (cases "us = []")
      case True
      then show ?thesis
        using assms Some by (simp add: disconnect_last [OF key, of rm] us_def registry_ok_del)
    next
      case ne: False
      show ?thesis
      proof (cases "element (users rm) (currentTurnIndex rm) = SocketId sid")
        case True
        then show ?thesis
          using assms Some ne r
          by (simp add: disconnect_active [OF key, of rm] us_def registry_ok_upd)
      next
        case False
        have "indexOf us (element us (currentTurnIndex rm)) = - 1 \<or>
              nat (indexOf us (element us (currentTurnIndex rm))) < length us"
          using indexOf_range [of us "element us (currentTurnIndex rm)"] by auto
        then show ?thesis
          using assms Some ne r False
          by (auto simp: disconnect_other [OF key, of rm] us_def [symmetric] Let_def
              intro!: registry_ok_upd)
      qed
    qed
  qed
qed

lemma registry_ok_step:
  assumes "registry_ok (rooms s)"
  shows "registry_ok (rooms (state_of (step s sid ev)))"
  using assms
  by (cases ev)
    (simp_all add: registry_ok_join_room registry_ok_disconnect pass_turn_def with_rooms_def
      registry_ok_passTurn start_drawing_def drawing_def finish_drawing_def clear_canvas_def
      handleDrawEvent_state split: option.splits)

lemma registry_ok_run:
  assumes "registry_ok (rooms s)"
  shows "registry_ok (rooms (state_of (run s evs)))"
  using assms
proof (induction evs arbitrary: s)
  case Nil
  then show ?case by simp
next
  case (Cons a evs)
  obtain sid ev where a: "a = (sid, ev)" by (cases a)
  obtain s' out t where st: "step s sid ev = Outcome s' out t" by (cases "step s sid ev")
  from Cons.prems have ok: "registry_ok (rooms s')"
    using registry_ok_step [of s sid ev] by (simp add: st)
  show ?case
  proof (cases t)
    case None
    obtain s'' out' t' where r: "run s' evs = Outcome s'' out' t'" by (cases "run s' evs")
    from Cons.IH [OF ok] have "registry_ok (rooms s'')" by (simp add: r)
    then show ?thesis by (simp add: a st None r)
  next
    case (Some e)
    then show ?thesis using ok by (simp add: a st)
  qed
qed

section \<open>Evaluation on concrete runs\<close>

lemmas eval_defs = join_room_def pass_turn_def disconnect_def passTurn_def
  broadcastTurnUpdate_def getActiveUser_def rooms_get_def object_prototype_keys_def element_def
  indexOf_def with_rooms_def initial_def handleDrawEvent_def start_drawing_def drawing_def
  finish_drawing_def clear_canvas_def two_joined_def three_joined_def sample_data_def Let_def

section \<open>Consecutive turn passes\<close>

lemma passTurn_times_own:
  assumes "rs r = Some rm" and "users rm \<noteq> []"
  shows "passTurn_times (Suc k) rs r =
           rs(r \<mapsto> rm\<lparr>currentTurnIndex := (currentTurnIndex rm + Suc k) mod length (users rm)\<rparr>)"
  using assms
proof (induction k arbitrary: rs rm)
  case 0
  then show ?case by (simp add: passTurn_own [of rs r rm])
next
  case (Suc k)
  let ?rm = "rm\<lparr>currentTurnIndex := (currentTurnIndex rm + 1) mod length (users rm)\<rparr>"
  let ?rs = "rs(r \<mapsto> ?rm)"
  have step: "state_of (passTurn rs r) = ?rs"
    using Suc.prems by (simp add: passTurn_own [of rs r rm])
  have "passTurn_times (Suc (Suc k)) rs r = passTurn_times (Suc k) ?rs r"
    by (simp only: passTurn_times.simps step)
  also have "\<dots> = ?rs(r \<mapsto> ?rm\<lparr>currentTurnIndex :=
      (currentTurnIndex ?rm + Suc k) mod length (users ?rm)\<rparr>)"
    using Suc.prems by (intro Suc.IH) simp_all
  also have "\<dots> = rs(r \<mapsto> rm\<lparr>currentTurnIndex :=
      (currentTurnIndex rm + Suc (Suc k)) mod length (users rm)\<rparr>)"
  proof -
    have "((currentTurnIndex rm + 1) mod length (users rm) + Suc k) mod length (users rm) =
          ((currentTurnIndex rm + 1) + Suc k) mod length (users rm)"
      by (rule mod_add_left_eq)
    also have "(currentTurnIndex rm + 1) + Suc k = currentTurnIndex rm + Suc (Suc k)"
      by simp
    finally show ?thesis by simp
  qed
  finally show ?case .
qed

lemma holders_rotate:
  assumes "rs r = Some rm" and "users rm \<noteq> []"
  shows "map (\<lambda>k. getActiveUser (passTurn_times (Suc k) rs r) r) [0..<length (users rm)] =
         map (\<lambda>u. Inr (SocketId u)) (rotate (currentTurnIndex rm + 1) (users rm))"
proof (rule nth_equalityI)
  show "length (map (\<lambda>k. getActiveUser (passTurn_times (Suc k) rs r) r) [0..<length (users rm)]) =
        length (map (\<lambda>u. Inr (SocketId u)) (rotate (currentTurnIndex rm + 1) (users rm)))"
    by simp
next
  fix j
  assume "j < length (map (\<lambda>k. getActiveUser (passTurn_times (Suc k) rs r) r) [0..<length (users rm)])"
  then have j: "j < length (users rm)" by simp
  have "getActiveUser (passTurn_times (Suc j) rs r) r =
        Inr (SocketId (users rm ! ((currentTurnIndex rm + Suc j) mod length (users rm))))"
    using assms
    by (simp del: passTurn_times.simps
        add: passTurn_times_own [of rs r rm] getActiveUser_own element_def)
  moreover have "rotate (currentTurnIndex rm + 1) (users rm) ! j =
        users rm ! ((currentTurnIndex rm + Suc j) mod length (users rm))"
  proof -
    have "rotate (currentTurnIndex rm + 1) (users rm) ! j =
          users rm ! ((currentTurnIndex rm + 1 + j) mod length (users rm))"
      using j by (rule nth_rotate)
    also have "currentTurnIndex rm + 1 + j = currentTurnIndex rm + Suc j"
      by simp
    finally show ?thesis .
  qed
  ultimately show "map (\<lambda>k. getActiveUser (passTurn_times (Suc k) rs r) r) [0..<length (users rm)] ! j =
        map (\<lambda>u. Inr (SocketId u)) (rotate (currentTurnIndex rm + 1) (users rm)) ! j"
    using j by (simp del: passTurn_times.simps rotate_Suc add: nth_rotate)
qed

lemma passTurn_times_cycle:
  assumes "rs r = Some rm" and "currentTurnIndex rm < length (users rm)"
  shows "passTurn_times (length (users rm)) rs r = rs"
proof -
  from assms(2) obtain k where k: "length (users rm) = Suc k" by (cases "length (users rm)") auto
  then have ne: "users rm \<noteq> []" by auto
  have "passTurn_times (Suc k) rs r =
          rs(r \<mapsto> rm\<lparr>currentTurnIndex := (currentTurnIndex rm + Suc k) mod length (users rm)\<rparr>)"
    using passTurn_times_own [of rs r rm k] assms(1) ne by simp
  also have "(currentTurnIndex rm + Suc k) mod length (users rm) = currentTurnIndex rm"
    using assms(2) k mod_add_self2 [of "currentTurnIndex rm" "Suc k"] by simp
  also have "rs(r \<mapsto> rm\<lparr>currentTurnIndex := currentTurnIndex rm\<rparr>) = rs"
    using assms(1) by (simp add: fun_upd_idem)
  finally show ?thesis by (simp add: k)
qed

section \<open>Leaving and joining: auxiliary facts\<close>

lemma other_member_remains:
  assumes "distinct xs" and "2 \<le> length xs"
  shows "filter (\<lambda>x. x \<noteq> a) xs \<noteq> []"
proof
  assume "filter (\<lambda>x. x \<noteq> a) xs = []"
  then have "set xs \<subseteq> {a}" by (auto simp: filter_empty_conv)
  then have "card (set xs) \<le> card {a}" by (intro card_mono) auto
  with assms show False by (simp add: distinct_card)
qed

lemma join_room_not_inherited:
  fixes s :: server_state
  assumes "r \<notin> set object_prototype_keys"
  defines "rm \<equiv> (case rooms s r of
                    None \<Rightarrow> \<lparr>users = [], currentTurnIndex = 0\<rparr> | Some rm \<Rightarrow> rm)"
  shows "join_room s sid r =
           Outcome
             (s\<lparr>subscribers := (subscribers s)(r := insert sid (subscribers s r)),
                roomName := (roomName s)(sid \<mapsto> r),
                rooms := (rooms s)(r \<mapsto> rm\<lparr>users := users rm @ [sid]\<rparr>)\<rparr>)
             [(InRoom r, turn_update (element (users rm @ [sid]) (currentTurnIndex rm)))] None"
proof (cases "rooms s r")
  case None
  then show ?thesis
    using assms(1) by (simp add: rm_def join_room_fresh element_def)
next
  case (Some a)
  then show ?thesis
    by (simp add: rm_def join_room_existing [of s r a])
qed

lemma join_room_joined:
  assumes "thrown (join_room s sid r) = None"
  shows "\<exists>rm. rooms (state_of (join_room s sid r)) = (rooms s)(r \<mapsto> rm) \<and> sid \<in> set (users rm)"
    and "roomName (state_of (join_room s sid r)) = (roomName s)(sid \<mapsto> r)"
proof -
  show "roomName (state_of (join_room s sid r)) = (roomName s)(sid \<mapsto> r)"
    by (cases "rooms s r"; cases "r \<in> set object_prototype_keys")
      (simp_all add: join_room_fresh join_room_inherited join_room_existing)
  show "\<exists>rm. rooms (state_of (join_room s sid r)) = (rooms s)(r \<mapsto> rm) \<and> sid \<in> set (users rm)"
  proof (cases "rooms s r")
    case None
    with assms have "r \<notin> set object_prototype_keys"
      by (auto simp: join_room_inherited)
    with None have "rooms (state_of (join_room s sid r)) =
        (rooms s)(r \<mapsto> \<lparr>users = [sid], currentTurnIndex = 0\<rparr>) \<and>
        sid \<in> set (users \<lparr>users = [sid], currentTurnIndex = 0\<rparr>)"
      by (simp add: join_room_fresh)
    then show ?thesis by blast
  next
    case (Some a)
    then have "rooms (state_of (join_room s sid r)) =
        (rooms s)(r \<mapsto> a\<lparr>users := users a @ [sid]\<rparr>) \<and>
        sid \<in> set (users (a\<lparr>users := users a @ [sid]\<rparr>))"
      by (simp add: join_room_existing [of s r a])
    then show ?thesis by blast
  qed
qed

lemma disconnect_rooms:
  assumes "roomName s sid = Some r" and "rooms s r = Some rm"
  shows "rooms (state_of (disconnect s sid)) = (rooms s)(r := None) \<or>
         (\<exists>rm'. rooms (state_of (disconnect s sid)) = (rooms s)(r \<mapsto> rm') \<and>
                users rm' = filter (\<lambda>id. id \<noteq> sid) (users rm))"
proof -
  have key: "(case roomName s sid of None \<Rightarrow> ''undefined'' | Some x \<Rightarrow> x) = r"
    using assms(1) by simp
  show ?thesis
  proof (cases "filter (\<lambda>id. id \<noteq> sid) (users rm) = []")
    case True
    then show ?thesis by (simp add: disconnect_last [OF key assms(2)])
  next
    case ne: False
    show ?thesis
    proof (cases "element (users rm) (currentTurnIndex rm) = SocketId sid")
      case True
      have "disconnect s sid =
           Outcome
             (s\<lparr>subscribers := (\<lambda>x. subscribers s x - {sid}),
                rooms := (rooms s)(r \<mapsto>
                  rm\<lparr>users := filter (\<lambda>id. id \<noteq> sid) (users rm), currentTurnIndex := 0\<rparr>)\<rparr>)
             [(InRoom r, turn_update (SocketId (filter (\<lambda>id. id \<noteq> sid) (users rm) ! 0)))]
             None"
        using key assms(2) ne True by (rule disconnect_active)
      then have "rooms (state_of (disconnect s sid)) = (rooms s)(r \<mapsto>
                  rm\<lparr>users := filter (\<lambda>id. id \<noteq> sid) (users rm), currentTurnIndex := 0\<rparr>) \<and>
          users (rm\<lparr>users := filter (\<lambda>id. id \<noteq> sid) (users rm), currentTurnIndex := 0\<rparr>) =
            filter (\<lambda>id. id \<noteq> sid) (users rm)"
        by simp
      then show ?thesis by blast
    next
      case False
      define i where "i =
        (if indexOf (filter (\<lambda>id. id \<noteq> sid) (users rm))
              (element (filter (\<lambda>id. id \<noteq> sid) (users rm)) (currentTurnIndex rm)) \<noteq> - 1
         then nat (indexOf (filter (\<lambda>id. id \<noteq> sid) (users rm))
              (element (filter (\<lambda>id. id \<noteq> sid) (users rm)) (currentTurnIndex rm)))
         else 0)"
      have "rooms (state_of (disconnect s sid)) = (rooms s)(r \<mapsto>
                  rm\<lparr>users := filter (\<lambda>id. id \<noteq> sid) (users rm), currentTurnIndex := i\<rparr>) \<and>
          users (rm\<lparr>users := filter (\<lambda>id. id \<noteq> sid) (users rm), currentTurnIndex := i\<rparr>) =
            filter (\<lambda>id. id \<noteq> sid) (users rm)"
        using False by (simp add: disconnect_other [OF key assms(2) ne] Let_def i_def)
      then show ?thesis by blast
    qed
  qed
qed

section \<open>Drawing events from a socket that does not hold the turn\<close>

lemma draw_event_not_active_no_message:
  assumes "getActiveUser (rooms s) (room d) \<noteq> Inr (SocketId sid)"
    and "ev \<in> {StartDrawing (Some d), Drawing (Some d), FinishDrawing (Some d),
                ClearCanvas (Some d)}"
  shows "emitted (step s sid ev) = [] \<and> state_of (step s sid ev) = s \<and>
         (rooms_get (rooms s) (room d) \<noteq> Inherited \<longrightarrow> thrown (step s sid ev) = None)"
  using assms
  by (auto simp: start_drawing_def drawing_def finish_drawing_def clear_canvas_def
      handleDrawEvent_def getActiveUser_def split: sum.splits lookup.splits if_splits)

section \<open>The claims\<close>

text \<open>
  Claim C1.  When a member that does not hold the turn leaves a room of at least two
  members, the same connection should hold the turn afterwards, its identity being captured
  before the member list is changed.

  The handler reads the holder of the turn only after it has replaced \<open>users\<close> by the
  filtered array, at the old index.  When the leaving member stood before the holder, that
  position now belongs to the holder's successor, or lies past the end of the array.  In
  the run below \<open>A\<close>, \<open>B\<close> and \<open>C\<close> join \<open>r1\<close> and the turn is passed once, so \<open>B\<close> holds it;
  \<open>A\<close> disconnects; the room keeps index \<open>1\<close> over \<open>[B, C]\<close>, so the turn has moved to \<open>C\<close>,
  and \<open>turn-update(C)\<close> is the message sent.
\<close>

theorem non_active_leave_moves_turn:
  "getActiveUser
     (rooms (state_of (run initial
        (three_joined @ [(''B'', PassTurn (Some \<lparr>room = ''r1'', props = []\<rparr>))])))) ''r1''
     = Inr (SocketId ''B'') \<and>
   rooms (state_of (run initial
        (three_joined @ [(''B'', PassTurn (Some \<lparr>room = ''r1'', props = []\<rparr>)), (''A'', Disconnect)])))
      ''r1''
     = Some \<lparr>users = [''B'', ''C''], currentTurnIndex = 1\<rparr> \<and>
   getActiveUser
     (rooms (state_of (run initial
        (three_joined @ [(''B'', PassTurn (Some \<lparr>room = ''r1'', props = []\<rparr>)), (''A'', Disconnect)]))))
      ''r1''
     = Inr (SocketId ''C'') \<and>
   last (emitted (run initial
        (three_joined @ [(''B'', PassTurn (Some \<lparr>room = ''r1'', props = []\<rparr>)), (''A'', Disconnect)])))
     = (InRoom ''r1'', turn_update (SocketId ''C''))"
  by (simp add: eval_defs)

text \<open>
  Claim C2.  In every state reached from the initial one by any sequence of events of any
  sockets (join, pass-turn, drawing events, disconnect), every room of the registry has
  \<open>0 \<le> currentTurnIndex < length users\<close>.  No assumption on how often or where a socket
  joins is needed.
\<close>

theorem turn_index_in_bounds:
  assumes "rooms (state_of (run initial evs)) r = Some rm"
  shows "0 \<le> currentTurnIndex rm \<and> currentTurnIndex rm < length (users rm)"
proof -
  have "registry_ok (rooms (state_of (run initial evs)))"
    by (rule registry_ok_run [OF registry_ok_initial])
  with assms show ?thesis by (auto simp: registry_ok_def)
qed

theorem turn_index_in_bounds_witness:
  "rooms (state_of (run initial
      [(''A'', JoinRoom ''r1''), (''B'', JoinRoom ''r1''),
       (''B'', PassTurn (Some \<lparr>room = ''r1'', props = []\<rparr>))])) ''r1''
     = Some \<lparr>users = [''A'', ''B''], currentTurnIndex = 1\<rparr> \<and>
   currentTurnIndex \<lparr>users = [''A'', ''B''], currentTurnIndex = 1\<rparr>
     < length (users \<lparr>users = [''A'', ''B''], currentTurnIndex = 1\<rparr>)"
proof -
  have h: "rooms (state_of (run initial
      [(''A'', JoinRoom ''r1''), (''B'', JoinRoom ''r1''),
       (''B'', PassTurn (Some \<lparr>room = ''r1'', props = []\<rparr>))])) ''r1''
     = Some \<lparr>users = [''A'', ''B''], currentTurnIndex = 1\<rparr>"
    by (simp add: eval_defs)
  show ?thesis using h turn_index_in_bounds [OF h] by simp
qed

text \<open>
  Claim C3.  A drawing-class event (start-drawing, drawing, finish-drawing, clear-canvas)
  whose sender does not hold the turn of the named room should be dropped silently, also
  when the room is not in the registry: no message, and no error.

  The guard \<open>!room\<close> of \<open>getActiveUser\<close> is meant to catch the absent room, yet it misses the
  names that \<open>rooms\<close> inherits from \<open>Object.prototype\<close>.  Below \<open>A\<close> and \<open>B\<close> are in \<open>r1\<close> and
  \<open>A\<close> holds the turn; no room \<open>toString\<close> exists; \<open>B\<close> sends a start-drawing event naming
  it.  \<open>getActiveUser\<close> reads the inherited function, finds no \<open>users\<close> and throws, so the
  handler ends with an uncaught TypeError where it should have dropped the event.  The
  same happens, one line earlier, to a drawing event that arrives without a payload.
\<close>

theorem draw_event_inherited_name_throws:
  "rooms (state_of (run initial two_joined)) ''toString'' = None \<and>
   getActiveUser (rooms (state_of (run initial two_joined))) ''r1'' = Inr (SocketId ''A'') \<and>
   getActiveUser (rooms (state_of (run initial two_joined))) ''toString'' = Inl TypeError \<and>
   step (state_of (run initial two_joined)) ''B''
       (StartDrawing (Some \<lparr>room = ''toString'', props = []\<rparr>))
     = Outcome (state_of (run initial two_joined)) [] (Some TypeError) \<and>
   step (state_of (run initial two_joined)) ''B'' (Drawing None)
     = Outcome (state_of (run initial two_joined)) [] (Some TypeError)"
proof -
  have n: "rooms (state_of (run initial two_joined)) ''toString'' = None"
    by (simp add: eval_defs)
  have a: "getActiveUser (rooms (state_of (run initial two_joined))) ''r1'' = Inr (SocketId ''A'')"
    by (simp add: eval_defs)
  have g: "getActiveUser (rooms (state_of (run initial two_joined))) ''toString'' = Inl TypeError"
    using n by (rule getActiveUser_inherited) (simp add: object_prototype_keys_def)
  have t: "step (state_of (run initial two_joined)) ''B''
       (StartDrawing (Some \<lparr>room = ''toString'', props = []\<rparr>))
     = Outcome (state_of (run initial two_joined)) [] (Some TypeError)"
    by (simp add: start_drawing_def handleDrawEvent_def g)
  have u: "step (state_of (run initial two_joined)) ''B'' (Drawing None)
     = Outcome (state_of (run initial two_joined)) [] (Some TypeError)"
    by (simp add: drawing_def handleDrawEvent_def)
  from n a g t u show ?thesis by blast
qed

text \<open>
  Claim C4.  For a room with \<open>n \<ge> 1\<close> users, \<open>passTurn\<close> sets the index to
  \<open>(currentTurnIndex + 1) mod n\<close> and announces the new holder.  The holders after the
  first, second, ..., \<open>n\<close>-th of \<open>n\<close> consecutive calls are the users in join order, rotated
  to start behind the current holder: every position exactly once, ending with the holder
  the calls started from (\<open>rotate k xs\<close> is \<open>drop (k mod n) xs @ take (k mod n) xs\<close>).  When
  the index was in range, the registry after the \<open>n\<close> calls is the one before them.  For a
  room that is absent or has no users \<open>passTurn\<close> changes nothing and emits nothing (for an
  inherited property name it ends with a TypeError, having changed and emitted nothing).
\<close>

theorem passTurn_round_robin:
  "(rs r = Some rm \<and> users rm \<noteq> [] \<longrightarrow>
      passTurn rs r =
        Outcome
          (rs(r \<mapsto> rm\<lparr>currentTurnIndex := (currentTurnIndex rm + 1) mod length (users rm)\<rparr>))
          [(InRoom r,
            turn_update (SocketId (users rm ! ((currentTurnIndex rm + 1) mod length (users rm)))))]
          None \<and>
      map (\<lambda>k. getActiveUser (passTurn_times (Suc k) rs r) r) [0..<length (users rm)] =
        map (\<lambda>u. Inr (SocketId u)) (rotate (currentTurnIndex rm + 1) (users rm)) \<and>
      (currentTurnIndex rm < length (users rm) \<longrightarrow>
         passTurn_times (length (users rm)) rs r = rs)) \<and>
   (rs r = None \<or> (\<exists>rm. rs r = Some rm \<and> users rm = []) \<longrightarrow>
      state_of (passTurn rs r) = rs \<and> emitted (passTurn rs r) = [])"
  using passTurn_own [of rs r rm] holders_rotate [of rs r rm] passTurn_times_cycle [of rs r rm]
    passTurn_state_unchanged [of rs r]
  by blast

theorem passTurn_round_robin_witness:
  "rooms (state_of (run initial three_joined)) ''r1''
     = Some \<lparr>users = [''A'', ''B'', ''C''], currentTurnIndex = 0\<rparr> \<and>
   map (\<lambda>k. getActiveUser (passTurn_times (Suc k) (rooms (state_of (run initial three_joined))) ''r1'')
          ''r1'') [0, 1, 2]
     = [Inr (SocketId ''B''), Inr (SocketId ''C''), Inr (SocketId ''A'')] \<and>
   passTurn_times 3 (rooms (state_of (run initial three_joined))) ''r1''
     = rooms (state_of (run initial three_joined)) \<and>
   rooms (state_of (run initial three_joined)) ''lobby'' = None \<and>
   state_of (passTurn (rooms (state_of (run initial three_joined))) ''lobby'')
     = rooms (state_of (run initial three_joined))"
proof -
  have h: "rooms (state_of (run initial three_joined)) ''r1''
     = Some \<lparr>users = [''A'', ''B'', ''C''], currentTurnIndex = 0\<rparr>"
    by (simp add: eval_defs)
  have n: "rooms (state_of (run initial three_joined)) ''lobby'' = None"
    by (simp add: eval_defs)
  have u: "[0..<length (users \<lparr>users = [''A'', ''B'', ''C''], currentTurnIndex = 0\<rparr>)] = [0, 1, 2]"
    by (simp add: upt_rec)
  have ne: "users \<lparr>users = [''A'', ''B'', ''C''], currentTurnIndex = 0\<rparr> \<noteq> []"
    and lt: "currentTurnIndex \<lparr>users = [''A'', ''B'', ''C''], currentTurnIndex = 0\<rparr>
              < length (users \<lparr>users = [''A'', ''B'', ''C''], currentTurnIndex = 0\<rparr>)"
    by simp_all
  from passTurn_round_robin [of "rooms (state_of (run initial three_joined))" "''r1''"
      "\<lparr>users = [''A'', ''B'', ''C''], currentTurnIndex = 0\<rparr>"] h ne lt
  have a: "map (\<lambda>k. getActiveUser
            (passTurn_times (Suc k) (rooms (state_of (run initial three_joined))) ''r1'') ''r1'')
          [0..<length (users \<lparr>users = [''A'', ''B'', ''C''], currentTurnIndex = 0\<rparr>)]
        = map (\<lambda>u. Inr (SocketId u))
            (rotate (currentTurnIndex \<lparr>users = [''A'', ''B'', ''C''], currentTurnIndex = 0\<rparr> + 1)
               (users \<lparr>users = [''A'', ''B'', ''C''], currentTurnIndex = 0\<rparr>))"
    and b: "passTurn_times (length (users \<lparr>users = [''A'', ''B'', ''C''], currentTurnIndex = 0\<rparr>))
            (rooms (state_of (run initial three_joined))) ''r1''
          = rooms (state_of (run initial three_joined))"
    by blast+
  from passTurn_round_robin [of "rooms (state_of (run initial three_joined))" "''lobby''"] n
  have c: "state_of (passTurn (rooms (state_of (run initial three_joined))) ''lobby'')
     = rooms (state_of (run initial three_joined))"
    by blast
  have a': "map (\<lambda>k. getActiveUser
            (passTurn_times (Suc k) (rooms (state_of (run initial three_joined))) ''r1'') ''r1'')
          [0, 1, 2]
        = [Inr (SocketId ''B''), Inr (SocketId ''C''), Inr (SocketId ''A'')]"
    using a unfolding u by (simp del: passTurn_times.simps)
  have b': "passTurn_times 3 (rooms (state_of (run initial three_joined))) ''r1''
          = rooms (state_of (run initial three_joined))"
    using b by (simp del: passTurn_times.simps add: numeral_3_eq_3)
  from h a' b' n c show ?thesis by blast
qed

text \<open>
  Claim C5.  In a room of at least two (distinct) members, when the socket holding the turn
  disconnects, it is removed from \<open>users\<close>, the index is reset to \<open>0\<close>, and one
  \<open>turn-update\<close> carrying the member now at position \<open>0\<close> is sent to the room's group; if the
  members were subscribed to that group, every remaining member is among the recipients.
\<close>

theorem active_member_leaves:
  fixes s :: server_state
  assumes "roomName s sid = Some r" and "rooms s r = Some rm"
    and "distinct (users rm)" and "2 \<le> length (users rm)"
    and "getActiveUser (rooms s) r = Inr (SocketId sid)"
  defines "us \<equiv> filter (\<lambda>id. id \<noteq> sid) (users rm)"
  shows "step s sid Disconnect =
           Outcome
             (s\<lparr>subscribers := (\<lambda>x. subscribers s x - {sid}),
                rooms := (rooms s)(r \<mapsto> rm\<lparr>users := us, currentTurnIndex := 0\<rparr>)\<rparr>)
             [(InRoom r, turn_update (SocketId (us ! 0)))] None \<and>
         us \<noteq> [] \<and> sid \<notin> set us \<and>
         getActiveUser (rooms (state_of (step s sid Disconnect))) r = Inr (SocketId (us ! 0)) \<and>
         (set (users rm) \<subseteq> subscribers s r \<longrightarrow>
            set us \<subseteq> recipients (state_of (step s sid Disconnect)) (InRoom r))"
proof -
  have ne: "us \<noteq> []"
    unfolding us_def using assms(3,4) by (rule other_member_remains)
  have act: "element (users rm) (currentTurnIndex rm) = SocketId sid"
    using assms(2,5) by (auto simp: getActiveUser_own split: if_splits)
  have key: "(case roomName s sid of None \<Rightarrow> ''undefined'' | Some x \<Rightarrow> x) = r"
    using assms(1) by simp
  have out: "step s sid Disconnect =
           Outcome
             (s\<lparr>subscribers := (\<lambda>x. subscribers s x - {sid}),
                rooms := (rooms s)(r \<mapsto> rm\<lparr>users := us, currentTurnIndex := 0\<rparr>)\<rparr>)
             [(InRoom r, turn_update (SocketId (us ! 0)))] None"
    using disconnect_active [OF key assms(2) ne [unfolded us_def] act]
    by (simp add: us_def)
  have mem: "sid \<notin> set us" by (simp add: us_def)
  have act': "getActiveUser (rooms (state_of (step s sid Disconnect))) r = Inr (SocketId (us ! 0))"
    using ne by (simp only: out) (simp add: getActiveUser_own element_def)
  have rec: "set (users rm) \<subseteq> subscribers s r \<longrightarrow>
            set us \<subseteq> recipients (state_of (step s sid Disconnect)) (InRoom r)"
    by (simp only: out) (auto simp: us_def)
  from out ne mem act' rec show ?thesis by blast
qed

theorem active_member_leaves_witness:
  "roomName (state_of (run initial three_joined)) ''A'' = Some ''r1'' \<and>
   rooms (state_of (run initial three_joined)) ''r1''
     = Some \<lparr>users = [''A'', ''B'', ''C''], currentTurnIndex = 0\<rparr> \<and>
   rooms (state_of (step (state_of (run initial three_joined)) ''A'' Disconnect)) ''r1''
     = Some \<lparr>users = [''B'', ''C''], currentTurnIndex = 0\<rparr> \<and>
   emitted (step (state_of (run initial three_joined)) ''A'' Disconnect)
     = [(InRoom ''r1'', turn_update (SocketId ''B''))] \<and>
   {''B'', ''C''}
     \<subseteq> recipients (state_of (step (state_of (run initial three_joined)) ''A'' Disconnect))
         (InRoom ''r1'')"
proof -
  have h1: "roomName (state_of (run initial three_joined)) ''A'' = Some ''r1''"
    by (simp add: eval_defs)
  have h2: "rooms (state_of (run initial three_joined)) ''r1''
     = Some \<lparr>users = [''A'', ''B'', ''C''], currentTurnIndex = 0\<rparr>"
    by (simp add: eval_defs)
  have h3: "distinct (users \<lparr>users = [''A'', ''B'', ''C''], currentTurnIndex = 0\<rparr>)"
    and h4: "2 \<le> length (users \<lparr>users = [''A'', ''B'', ''C''], currentTurnIndex = 0\<rparr>)"
    by simp_all
  have h5: "getActiveUser (rooms (state_of (run initial three_joined))) ''r1'' = Inr (SocketId ''A'')"
    by (simp add: eval_defs)
  have sub: "set (users \<lparr>users = [''A'', ''B'', ''C''], currentTurnIndex = 0\<rparr>)
      \<subseteq> subscribers (state_of (run initial three_joined)) ''r1''"
    by (simp add: eval_defs)
  from active_member_leaves [OF h1 h2 h3 h4 h5] sub
  have "step (state_of (run initial three_joined)) ''A'' Disconnect =
           Outcome
             ((state_of (run initial three_joined))
               \<lparr>subscribers := (\<lambda>x. subscribers (state_of (run initial three_joined)) x - {''A''}),
                rooms := (rooms (state_of (run initial three_joined)))(''r1'' \<mapsto>
                  \<lparr>users = [''B'', ''C''], currentTurnIndex = 0\<rparr>)\<rparr>)
             [(InRoom ''r1'', turn_update (SocketId ''B''))] None"
    and "{''B'', ''C''}
     \<subseteq> recipients (state_of (step (state_of (run initial three_joined)) ''A'' Disconnect))
         (InRoom ''r1'')"
    by simp_all
  with h1 h2 show ?thesis by simp
qed

text \<open>
  Claim C6.  In a reachable state, when the only member of a room disconnects, the room's
  entry is deleted by that same handler run, nothing is emitted, \<open>getActiveUser\<close> on that
  name then yields \<open>null\<close>, and no room of the resulting registry has an empty user list.
\<close>

theorem last_member_leaves_room_deleted:
  fixes s :: server_state
  assumes "s = state_of (run initial evs)"
    and "roomName s sid = Some r" and "rooms s r = Some rm" and "users rm = [sid]"
  shows "step s sid Disconnect =
           Outcome (s\<lparr>subscribers := (\<lambda>x. subscribers s x - {sid}),
                     rooms := (rooms s)(r := None)\<rparr>) [] None \<and>
         rooms (state_of (step s sid Disconnect)) r = None \<and>
         getActiveUser (rooms (state_of (step s sid Disconnect))) r = Inr Null \<and>
         (\<forall>r' rm'. rooms (state_of (step s sid Disconnect)) r' = Some rm' \<longrightarrow> users rm' \<noteq> [])"
proof -
  have ok: "registry_ok (rooms s)"
    unfolding assms(1) by (rule registry_ok_run [OF registry_ok_initial])
  with assms(3) have r: "r \<notin> set object_prototype_keys"
    by (auto simp: registry_ok_def)
  have key: "(case roomName s sid of None \<Rightarrow> ''undefined'' | Some x \<Rightarrow> x) = r"
    using assms(2) by simp
  have out: "step s sid Disconnect =
           Outcome (s\<lparr>subscribers := (\<lambda>x. subscribers s x - {sid}),
                     rooms := (rooms s)(r := None)\<rparr>) [] None"
    using disconnect_last [OF key assms(3)] assms(4) by simp
  have gone: "rooms (state_of (step s sid Disconnect)) r = None"
    by (simp only: out) simp
  have none: "getActiveUser (rooms (state_of (step s sid Disconnect))) r = Inr Null"
    using gone r by (rule getActiveUser_missing)
  have "registry_ok (rooms (state_of (step s sid Disconnect)))"
    using ok by (rule registry_ok_step)
  then have inv: "\<forall>r' rm'. rooms (state_of (step s sid Disconnect)) r' = Some rm' \<longrightarrow> users rm' \<noteq> []"
    by (auto simp: registry_ok_def)
  from out gone none inv show ?thesis by blast
qed

theorem last_member_leaves_room_deleted_witness:
  "roomName (state_of (run initial [(''A'', JoinRoom ''r1'')])) ''A'' = Some ''r1'' \<and>
   rooms (state_of (run initial [(''A'', JoinRoom ''r1'')])) ''r1''
     = Some \<lparr>users = [''A''], currentTurnIndex = 0\<rparr> \<and>
   rooms (state_of (step (state_of (run initial [(''A'', JoinRoom ''r1'')])) ''A'' Disconnect)) ''r1''
     = None \<and>
   emitted (step (state_of (run initial [(''A'', JoinRoom ''r1'')])) ''A'' Disconnect) = [] \<and>
   getActiveUser
     (rooms (state_of (step (state_of (run initial [(''A'', JoinRoom ''r1'')])) ''A'' Disconnect)))
     ''r1'' = Inr Null"
proof -
  have h1: "roomName (state_of (run initial [(''A'', JoinRoom ''r1'')])) ''A'' = Some ''r1''"
    by (simp add: eval_defs)
  have h2: "rooms (state_of (run initial [(''A'', JoinRoom ''r1'')])) ''r1''
     = Some \<lparr>users = [''A''], currentTurnIndex = 0\<rparr>"
    by (simp add: eval_defs)
  have h3: "users \<lparr>users = [''A''], currentTurnIndex = 0\<rparr> = [''A'']"
    by simp
  note th = last_member_leaves_room_deleted [OF refl h1 h2 h3]
  note out = th [THEN conjunct1]
  note gone = th [THEN conjunct2, THEN conjunct1]
  note none = th [THEN conjunct2, THEN conjunct2, THEN conjunct1]
  have e: "emitted (step (state_of (run initial [(''A'', JoinRoom ''r1'')])) ''A'' Disconnect) = []"
    by (simp only: out outcome.sel)
  from h1 h2 gone e none show ?thesis by blast
qed

text \<open>
  Claim C7, amended.  For a room name that is not a property name inherited from
  \<open>Object.prototype\<close>: \<open>join-room\<close> creates the room if absent, with index \<open>0\<close> and no
  users, then appends the socket to \<open>users\<close> whether or not it is already there, leaving
  the index of an existing room unchanged; it sends one \<open>turn-update\<close> to the room's group,
  carrying what \<open>getActiveUser\<close> yields for the updated room, and if the earlier users were
  subscribed to the group every user is among the recipients.  In particular, when \<open>sid\<close>
  and then \<open>sid'\<close> join a fresh room, its users are \<open>[sid, sid']\<close>, its index is \<open>0\<close>, and
  the \<open>turn-update\<close> of the second join carries \<open>sid\<close> and reaches both.
\<close>

theorem join_room_appends:
  fixes s :: server_state and sid :: socket_id and r :: room_name
  assumes "r \<notin> set object_prototype_keys"
  defines "rm \<equiv> (case rooms s r of
                    None \<Rightarrow> \<lparr>users = [], currentTurnIndex = 0\<rparr> | Some rm \<Rightarrow> rm)"
    and "s1 \<equiv> state_of (step s sid (JoinRoom r))"
  shows "step s sid (JoinRoom r) =
           Outcome
             (s\<lparr>subscribers := (subscribers s)(r := insert sid (subscribers s r)),
                roomName := (roomName s)(sid \<mapsto> r),
                rooms := (rooms s)(r \<mapsto> rm\<lparr>users := users rm @ [sid]\<rparr>)\<rparr>)
             [(InRoom r, turn_update (element (users rm @ [sid]) (currentTurnIndex rm)))] None \<and>
         getActiveUser (rooms s1) r = Inr (element (users rm @ [sid]) (currentTurnIndex rm)) \<and>
         (set (users rm) \<subseteq> subscribers s r \<longrightarrow>
            set (users rm @ [sid]) \<subseteq> recipients s1 (InRoom r)) \<and>
         (rooms s r = None \<longrightarrow>
            rooms (state_of (step s1 sid' (JoinRoom r))) r
              = Some \<lparr>users = [sid, sid'], currentTurnIndex = 0\<rparr> \<and>
            emitted (step s1 sid' (JoinRoom r)) = [(InRoom r, turn_update (SocketId sid))] \<and>
            {sid, sid'} \<subseteq> recipients (state_of (step s1 sid' (JoinRoom r))) (InRoom r))"
proof -
  have j: "join_room s sid r =
           Outcome
             (s\<lparr>subscribers := (subscribers s)(r := insert sid (subscribers s r)),
                roomName := (roomName s)(sid \<mapsto> r),
                rooms := (rooms s)(r \<mapsto> rm\<lparr>users := users rm @ [sid]\<rparr>)\<rparr>)
             [(InRoom r, turn_update (element (users rm @ [sid]) (currentTurnIndex rm)))] None"
    unfolding rm_def using assms(1) by (rule join_room_not_inherited)
  have s1: "s1 = s\<lparr>subscribers := (subscribers s)(r := insert sid (subscribers s r)),
                roomName := (roomName s)(sid \<mapsto> r),
                rooms := (rooms s)(r \<mapsto> rm\<lparr>users := users rm @ [sid]\<rparr>)\<rparr>"
    by (simp add: s1_def j)
  have a: "getActiveUser (rooms s1) r = Inr (element (users rm @ [sid]) (currentTurnIndex rm))"
    by (simp add: s1 getActiveUser_own)
  have b: "set (users rm) \<subseteq> subscribers s r \<longrightarrow>
            set (users rm @ [sid]) \<subseteq> recipients s1 (InRoom r)"
    by (auto simp: s1)
  have c: "rooms s r = None \<longrightarrow>
            rooms (state_of (step s1 sid' (JoinRoom r))) r
              = Some \<lparr>users = [sid, sid'], currentTurnIndex = 0\<rparr> \<and>
            emitted (step s1 sid' (JoinRoom r)) = [(InRoom r, turn_update (SocketId sid))] \<and>
            {sid, sid'} \<subseteq> recipients (state_of (step s1 sid' (JoinRoom r))) (InRoom r)"
  proof
    assume "rooms s r = None"
    then have rm: "rm = \<lparr>users = [], currentTurnIndex = 0\<rparr>" by (simp add: rm_def)
    have r1: "rooms s1 r = Some \<lparr>users = [sid], currentTurnIndex = 0\<rparr>"
      by (simp add: s1 rm)
    have sub: "sid \<in> subscribers s1 r" by (simp add: s1)
    show "rooms (state_of (step s1 sid' (JoinRoom r))) r
              = Some \<lparr>users = [sid, sid'], currentTurnIndex = 0\<rparr> \<and>
            emitted (step s1 sid' (JoinRoom r)) = [(InRoom r, turn_update (SocketId sid))] \<and>
            {sid, sid'} \<subseteq> recipients (state_of (step s1 sid' (JoinRoom r))) (InRoom r)"
      using sub by (simp add: join_room_existing [OF r1] element_def)
  qed
  from j a b c show ?thesis by simp
qed

theorem join_room_appends_witness:
  "''r1'' \<notin> set object_prototype_keys \<and>
   rooms (state_of (step initial ''A'' (JoinRoom ''r1''))) ''r1''
     = Some \<lparr>users = [''A''], currentTurnIndex = 0\<rparr> \<and>
   emitted (step initial ''A'' (JoinRoom ''r1''))
     = [(InRoom ''r1'', turn_update (SocketId ''A''))] \<and>
   rooms (state_of (step (state_of (step initial ''A'' (JoinRoom ''r1''))) ''B'' (JoinRoom ''r1'')))
      ''r1''
     = Some \<lparr>users = [''A'', ''B''], currentTurnIndex = 0\<rparr> \<and>
   emitted (step (state_of (step initial ''A'' (JoinRoom ''r1''))) ''B'' (JoinRoom ''r1''))
     = [(InRoom ''r1'', turn_update (SocketId ''A''))] \<and>
   {''A'', ''B''}
     \<subseteq> recipients
         (state_of (step (state_of (step initial ''A'' (JoinRoom ''r1''))) ''B'' (JoinRoom ''r1'')))
         (InRoom ''r1'')"
proof -
  have h: "''r1'' \<notin> set object_prototype_keys"
    by (simp add: object_prototype_keys_def)
  have n: "rooms initial ''r1'' = None"
    by (simp add: initial_def)
  note th = join_room_appends [OF h, of initial "''A''" "''B''"]
  note out = th [THEN conjunct1]
  note two = th [THEN conjunct2, THEN conjunct2, THEN conjunct2, THEN mp, OF n]
  have a: "rooms (state_of (step initial ''A'' (JoinRoom ''r1''))) ''r1''
     = Some \<lparr>users = [''A''], currentTurnIndex = 0\<rparr>"
    by (simp only: out) (simp add: n)
  have b: "emitted (step initial ''A'' (JoinRoom ''r1''))
     = [(InRoom ''r1'', turn_update (SocketId ''A''))]"
    by (simp only: out) (simp add: n element_def)
  from h a b two show ?thesis by blast
qed

text \<open>
  The statement of the claim as first worded fails on two inputs.  A socket that joins the
  room it is already in is appended a second time, where \<open>join_as_specified\<close> leaves the
  members as they are.  And joining the room name \<open>toString\<close> creates no room and sends
  no \<open>turn-update\<close>: the handler ends with a TypeError.
\<close>

theorem join_room_duplicate_and_inherited_name:
  "rooms (state_of (run initial [(''A'', JoinRoom ''r1''), (''A'', JoinRoom ''r1'')])) ''r1''
     = Some \<lparr>users = [''A'', ''A''], currentTurnIndex = 0\<rparr> \<and>
   join_as_specified (rooms (state_of (run initial [(''A'', JoinRoom ''r1'')]))) ''r1'' ''A'' ''r1''
     = Some \<lparr>users = [''A''], currentTurnIndex = 0\<rparr> \<and>
   rooms (state_of (run initial [(''A'', JoinRoom ''r1''), (''A'', JoinRoom ''r1'')])) ''r1''
     \<noteq> join_as_specified (rooms (state_of (run initial [(''A'', JoinRoom ''r1'')]))) ''r1'' ''A''
         ''r1'' \<and>
   rooms (state_of (step initial ''A'' (JoinRoom ''toString''))) ''toString'' = None \<and>
   emitted (step initial ''A'' (JoinRoom ''toString'')) = [] \<and>
   thrown (step initial ''A'' (JoinRoom ''toString'')) = Some TypeError"
  by (simp add: eval_defs join_as_specified_def)

text \<open>
  Claim C8.  A drawing-class event never changes the state, whether it is relayed or
  dropped (or ended by a TypeError, for a missing payload or an inherited room name).  When
  the sender holds the turn, the handler emits exactly one message:
  for start-drawing, drawing and finish-drawing to the room's group without the sender,
  for clear-canvas to the whole group of the room.
\<close>

theorem drawing_events_frame:
  "state_of (step s sid (StartDrawing payload)) = s \<and>
   state_of (step s sid (Drawing payload)) = s \<and>
   state_of (step s sid (FinishDrawing payload)) = s \<and>
   state_of (step s sid (ClearCanvas payload)) = s \<and>
   (getActiveUser (rooms s) (room d) = Inr (SocketId sid) \<longrightarrow>
      step s sid (StartDrawing (Some d))
        = Outcome s [(ToOthers (room d) sid, server_start_drawing d)] None \<and>
      step s sid (Drawing (Some d))
        = Outcome s [(ToOthers (room d) sid, server_drawing d)] None \<and>
      step s sid (FinishDrawing (Some d))
        = Outcome s [(ToOthers (room d) sid, server_finish_drawing)] None \<and>
      step s sid (ClearCanvas (Some d))
        = Outcome s [(InRoom (room d), server_clear_canvas)] None) \<and>
   sid \<notin> recipients s (ToOthers (room d) sid) \<and>
   recipients s (InRoom (room d)) = subscribers s (room d)"
  by (simp add: start_drawing_def drawing_def finish_drawing_def clear_canvas_def
      handleDrawEvent_state) (simp add: handleDrawEvent_def)

theorem drawing_events_frame_witness:
  "getActiveUser (rooms (state_of (run initial two_joined))) (room sample_data)
     = Inr (SocketId ''A'') \<and>
   step (state_of (run initial two_joined)) ''A'' (Drawing (Some sample_data))
     = Outcome (state_of (run initial two_joined))
         [(ToOthers (room sample_data) ''A'', server_drawing sample_data)] None \<and>
   step (state_of (run initial two_joined)) ''A'' (ClearCanvas (Some sample_data))
     = Outcome (state_of (run initial two_joined))
         [(InRoom (room sample_data), server_clear_canvas)] None \<and>
   recipients (state_of (run initial two_joined)) (ToOthers ''r1'' ''A'') = {''B''} \<and>
   recipients (state_of (run initial two_joined)) (InRoom ''r1'') = {''A'', ''B''}"
proof -
  have h: "getActiveUser (rooms (state_of (run initial two_joined))) (room sample_data)
     = Inr (SocketId ''A'')"
    by (simp add: eval_defs)
  have r1: "recipients (state_of (run initial two_joined)) (ToOthers ''r1'' ''A'') = {''B''}"
    by (auto simp: eval_defs)
  have r2: "recipients (state_of (run initial two_joined)) (InRoom ''r1'') = {''A'', ''B''}"
    by (auto simp: eval_defs)
  from drawing_events_frame
         [where s = "state_of (run initial two_joined)" and sid = "''A''" and d = sample_data]
       h r1 r2
  show ?thesis by blast
qed

text \<open>
  Claim C9.  When a socket joins \<open>r1\<close> and then a different room \<open>r2\<close>, the stored
  \<open>socket.roomName\<close> is overwritten by \<open>r2\<close>.  At disconnect the socket is removed from the
  users of \<open>r2\<close> only: the entry of \<open>r1\<close> is left as it was and still lists the socket.
\<close>

theorem second_join_leaks_first_room:
  fixes s :: server_state and sid :: socket_id and r1 r2 :: room_name
  defines "s1 \<equiv> state_of (step s sid (JoinRoom r1))"
  defines "s2 \<equiv> state_of (step s1 sid (JoinRoom r2))"
  defines "s3 \<equiv> state_of (step s2 sid Disconnect)"
  assumes "r1 \<noteq> r2"
    and "thrown (step s sid (JoinRoom r1)) = None"
    and "thrown (step s1 sid (JoinRoom r2)) = None"
  shows "roomName s1 sid = Some r1 \<and> roomName s2 sid = Some r2 \<and>
         rooms s3 r1 = rooms s2 r1 \<and>
         (\<exists>rm. rooms s3 r1 = Some rm \<and> sid \<in> set (users rm)) \<and>
         (\<forall>rm. rooms s3 r2 = Some rm \<longrightarrow> sid \<notin> set (users rm))"
proof -
  from assms(5) have t1: "thrown (join_room s sid r1) = None" by simp
  from assms(6) have t2: "thrown (join_room s1 sid r2) = None" by simp
  from join_room_joined [OF t1] obtain rm1 where
    rs1: "rooms s1 = (rooms s)(r1 \<mapsto> rm1)" and in1: "sid \<in> set (users rm1)"
    and n1: "roomName s1 = (roomName s)(sid \<mapsto> r1)"
    by (auto simp: s1_def)
  from join_room_joined [OF t2] obtain rm2 where
    rs2: "rooms s2 = (rooms s1)(r2 \<mapsto> rm2)" and in2: "sid \<in> set (users rm2)"
    and n2: "roomName s2 = (roomName s1)(sid \<mapsto> r2)"
    by (auto simp: s2_def)
  have name2: "roomName s2 sid = Some r2" by (simp add: n2)
  have own2: "rooms s2 r2 = Some rm2" by (simp add: rs2)
  have keep: "rooms s2 r1 = Some rm1" using assms(4) by (simp add: rs2 rs1)
  have s3: "s3 = state_of (disconnect s2 sid)" by (simp add: s3_def)
  from disconnect_rooms [OF name2 own2]
  have "rooms s3 = (rooms s2)(r2 := None) \<or>
         (\<exists>rm'. rooms s3 = (rooms s2)(r2 \<mapsto> rm') \<and>
                users rm' = filter (\<lambda>id. id \<noteq> sid) (users rm2))"
    by (simp only: s3)
  then have "rooms s3 r1 = rooms s2 r1 \<and> (\<forall>rm. rooms s3 r2 = Some rm \<longrightarrow> sid \<notin> set (users rm))"
    using assms(4) by auto
  with keep in1 name2 n1 show ?thesis by simp
qed

theorem second_join_leaks_first_room_witness:
  "''r1'' \<noteq> ''r2'' \<and>
   thrown (step initial ''A'' (JoinRoom ''r1'')) = None \<and>
   thrown (step (state_of (step initial ''A'' (JoinRoom ''r1''))) ''A'' (JoinRoom ''r2'')) = None \<and>
   roomName (state_of (step (state_of (step initial ''A'' (JoinRoom ''r1''))) ''A'' (JoinRoom ''r2'')))
      ''A'' = Some ''r2'' \<and>
   (\<exists>rm. rooms (state_of (step
            (state_of (step (state_of (step initial ''A'' (JoinRoom ''r1''))) ''A'' (JoinRoom ''r2'')))
            ''A'' Disconnect)) ''r1'' = Some rm \<and> ''A'' \<in> set (users rm))"
proof -
  have h1: "''r1'' \<noteq> ''r2''" by simp
  have h2: "thrown (step initial ''A'' (JoinRoom ''r1'')) = None"
    by (simp add: eval_defs)
  have h3: "thrown (step (state_of (step initial ''A'' (JoinRoom ''r1''))) ''A'' (JoinRoom ''r2''))
      = None"
    by (simp add: eval_defs)
  from second_join_leaks_first_room [OF h1 h2 h3] h1 h2 h3 show ?thesis by blast
qed

text \<open>
  Claim C10.  A pass-turn event that names an existing room with at least one user advances
  the turn and sends the \<open>turn-update\<close>, whichever socket sent it: the handler never looks at
  the sender, so the statement holds for every \<open>sid\<close>, member of the room or not.
\<close>

theorem pass_turn_from_anyone:
  assumes "rooms s (room d) = Some rm" and "users rm \<noteq> []"
  shows "step s sid (PassTurn (Some d)) =
           Outcome
             (s\<lparr>rooms := (rooms s)(room d \<mapsto>
                  rm\<lparr>currentTurnIndex := (currentTurnIndex rm + 1) mod length (users rm)\<rparr>)\<rparr>)
             [(InRoom (room d),
               turn_update
                 (SocketId (users rm ! ((currentTurnIndex rm + 1) mod length (users rm)))))]
             None"
  using assms by (simp add: pass_turn_def with_rooms_def passTurn_own [of "rooms s" "room d" rm])

theorem pass_turn_from_anyone_witness:
  "rooms (state_of (run initial two_joined)) ''r1''
     = Some \<lparr>users = [''A'', ''B''], currentTurnIndex = 0\<rparr> \<and>
   ''Z'' \<notin> set [''A'', ''B''] \<and>
   rooms (state_of (step (state_of (run initial two_joined)) ''Z''
      (PassTurn (Some \<lparr>room = ''r1'', props = []\<rparr>)))) ''r1''
     = Some \<lparr>users = [''A'', ''B''], currentTurnIndex = 1\<rparr> \<and>
   emitted (step (state_of (run initial two_joined)) ''Z''
      (PassTurn (Some \<lparr>room = ''r1'', props = []\<rparr>)))
     = [(InRoom ''r1'', turn_update (SocketId ''B''))]"
proof -
  have h: "rooms (state_of (run initial two_joined)) (room \<lparr>room = ''r1'', props = []\<rparr>)
     = Some \<lparr>users = [''A'', ''B''], currentTurnIndex = 0\<rparr>"
    by (simp add: eval_defs)
  have ne: "users \<lparr>users = [''A'', ''B''], currentTurnIndex = 0\<rparr> \<noteq> []"
    by simp
  from pass_turn_from_anyone [OF h ne, of "''Z''"] h show ?thesis
    by simp
qed

end
